theory Spec2Isabelle
  imports Complex_Main "HOL-Library.Word" "HOL-Library.Log_Nat"
begin

section \<open>Strings and the measurement capability\<close>

text \<open>
  A JavaScript string is a sequence of UTF-16 code units, and \<open>text.length\<close> counts code
  units. The ellipsis of the template literals is the single code unit U+2026.
\<close>

type_synonym jsstring = "16 word list"

definition ellipsis :: "16 word" where
  "ellipsis = 0x2026"

text \<open>
  \<open>s.slice(b, e)\<close> of \<open>String.prototype.slice\<close>: a negative index counts from the
  end of the string, every index is clamped to \<open>0 .. s.length\<close>, and the result is empty
  when the start is not before the end. \<open>s.slice(b)\<close> takes the end to be the length.
  The argument \<open>-0\<close> is the index \<open>0\<close>.
\<close>

definition slice :: "jsstring \<Rightarrow> int \<Rightarrow> int \<Rightarrow> jsstring" where
  "slice s b e =
     (let len = int (length s);
          from = (if b < 0 then max (len + b) 0 else min b len);
          to = (if e < 0 then max (len + e) 0 else min e len)
      in take (nat (to - from)) (drop (nat from) s))"

definition slice_from :: "jsstring \<Rightarrow> int \<Rightarrow> jsstring" where
  "slice_from s b = slice s b (int (length s))"

text \<open>
  The template literal of lines 111 and 121:
  \<^verbatim>\<open>`${text.slice(0, mid)}...${text.slice(-mid)}`\<close> (with the ellipsis character between
  the two slices).
\<close>

definition candidate :: "jsstring \<Rightarrow> int \<Rightarrow> jsstring" where
  "candidate text mid = slice text 0 mid @ [ellipsis] @ slice_from text (- mid)"

text \<open>\<open>Math.floor(text.length / 2)\<close>.\<close>

definition half :: "jsstring \<Rightarrow> int" where
  "half text = int (length text) div 2"

section \<open>The binary search of \<open>useFixedSpan\<close>\<close>

text \<open>
  The local variables of the effect body (lines 103 to 107). \<open>start\<close>, \<open>end\<close> and
  \<open>mid\<close> are integer-valued JavaScript numbers, far below \<open>2^53\<close> for any string, so
  they are integers here. Widths are only ever compared, never computed with, so they are
  real numbers. \<open>measured\<close> records, in order, each string handed to
  \<open>ctx.measureText\<close>.
\<close>

record search_state =
  start :: int
  end_mark :: int
  truncatedText :: jsstring
  measuredWidth :: "real option"
  measured :: "jsstring list"

text \<open>The while loop of lines 109 to 118.\<close>

function search_loop ::
  "(jsstring \<Rightarrow> real) \<Rightarrow> real \<Rightarrow> jsstring \<Rightarrow> search_state \<Rightarrow> search_state" where
  "search_loop measureText targetWidth text st =
     (if start st \<le> end_mark st then
        (let mid = (start st + end_mark st) div 2;
             tt = candidate text mid;
             mw = measureText tt;
             st' = st\<lparr>truncatedText := tt, measuredWidth := Some mw,
                      measured := measured st @ [tt]\<rparr>
         in if mw < targetWidth
            then search_loop measureText targetWidth text (st'\<lparr>start := mid + 1\<rparr>)
            else search_loop measureText targetWidth text (st'\<lparr>end_mark := mid - 1\<rparr>))
      else st)"
  by pat_completeness auto
termination
  by (relation "measure (\<lambda>(m, W, t, st). nat (end_mark st - start st + 1))") auto

declare search_loop.simps [simp del]

text \<open>Lines 103 to 118: the initial values, then the loop.\<close>

definition search :: "(jsstring \<Rightarrow> real) \<Rightarrow> real \<Rightarrow> jsstring \<Rightarrow> search_state" where
  "search measureText targetWidth text =
     search_loop measureText targetWidth text
       \<lparr>start = 1, end_mark = half text, truncatedText = text,
        measuredWidth = None, measured = []\<rparr>"

text \<open>Line 121: the value handed to \<open>setTruncated\<close>.\<close>

definition fixed_span :: "(jsstring \<Rightarrow> real) \<Rightarrow> real \<Rightarrow> jsstring \<Rightarrow> jsstring" where
  "fixed_span measureText targetWidth text =
     (let r = search measureText targetWidth text
      in if end_mark r \<ge> half text then text else candidate text (end_mark r))"

section \<open>The hook \<open>useFixedSpan\<close> and its effect\<close>

text \<open>
  \<open>TargetStyle\<close> of lines 65 to 68. A 2d context, once \<open>ctx.font\<close> is set, maps a string
  to \<open>ctx.measureText(s).width\<close>; \<open>canvas.getContext('2d')\<close> may return \<open>null\<close>.
\<close>

record TargetStyle =
  width :: real
  font :: string

type_synonym context2d = "string \<Rightarrow> jsstring \<Rightarrow> real"

text \<open>
  The state of the hook is the React state \<open>truncated\<close> of line 71, which persists from
  one render to the next. \<open>measure_log\<close> records every string measured so far.
\<close>

record hook_state =
  truncated :: jsstring
  measure_log :: "jsstring list"

text \<open>Line 71 at the first render: \<open>useState(text)\<close> takes its initial value.\<close>

definition useFixedSpan_mount :: "jsstring \<Rightarrow> hook_state" where
  "useFixedSpan_mount text = \<lparr>truncated = text, measure_log = []\<rparr>"

text \<open>
  The effect of lines 73 to 123, with its three early returns (lines 74, 88 and 93) and the
  \<open>setTruncated\<close> of line 121. The canvas is appended to the body and removed again
  within the effect, which leaves the document as it was.
\<close>

definition useFixedSpan_effect ::
  "context2d option \<Rightarrow> jsstring \<Rightarrow> TargetStyle option \<Rightarrow> hook_state \<Rightarrow> hook_state" where
  "useFixedSpan_effect getContext text targetStyle h =
     (case targetStyle of
        None \<Rightarrow> h
      | Some ts \<Rightarrow>
          (case getContext of
             None \<Rightarrow> h
           | Some ctx \<Rightarrow>
               if width ts = 0 then h
               else h\<lparr>truncated := fixed_span (ctx (font ts)) (width ts) text,
                      measure_log :=
                        measure_log h @ measured (search (ctx (font ts)) (width ts) text)\<rparr>))"

text \<open>
  A sequence of renders after the first one, each running the effect with the canvas
  capability, the \<open>text\<close> prop and the \<open>targetStyle\<close> of that render. The value the hook
  returns, and the component displays, is \<open>truncated\<close>.
\<close>

fun useFixedSpan_renders ::
  "hook_state \<Rightarrow> (context2d option \<times> jsstring \<times> TargetStyle option) list \<Rightarrow> hook_state" where
  "useFixedSpan_renders h [] = h"
| "useFixedSpan_renders h ((getContext, text, targetStyle) # rs) =
     useFixedSpan_renders (useFixedSpan_effect getContext text targetStyle h) rs"

text \<open>The effect returns early: no target style yet, no 2d context, or a width of zero.\<close>

definition skipped :: "context2d option \<Rightarrow> TargetStyle option \<Rightarrow> bool" where
  "skipped getContext targetStyle =
     (case targetStyle of
        None \<Rightarrow> True
      | Some ts \<Rightarrow> (case getContext of None \<Rightarrow> True | Some ctx \<Rightarrow> width ts = 0))"

section \<open>The copy handler\<close>

text \<open>
  What a copy event can change: the system clipboard, and the event's
  \<open>defaultPrevented\<close> flag.
\<close>

record copy_world =
  clipboard :: jsstring
  defaultPrevented :: bool

datatype js_error = TypeError

text \<open>
  \<open>navigator.clipboard\<close> is a \<open>Clipboard\<close> object in a secure context and
  \<open>undefined\<close> otherwise. The promise of its \<open>writeText(data)\<close> is fulfilled once the
  data is on the clipboard, or rejected (no permission), and then nothing is written.
\<close>

datatype Clipboard = Fulfils | Rejects

definition writeText :: "Clipboard \<Rightarrow> jsstring \<Rightarrow> copy_world \<Rightarrow> copy_world" where
  "writeText api data w = (case api of Fulfils \<Rightarrow> w\<lparr>clipboard := data\<rparr> | Rejects \<Rightarrow> w)"

text \<open>
  \<open>handleCopy\<close> of lines 20 to 27: \<open>e.preventDefault()\<close>, then
  \<open>clipboardAPI = navigator.clipboard\<close> and \<open>clipboardAPI.writeText(text)\<close>. Nothing
  guards the call: on \<open>undefined\<close> it throws a \<open>TypeError\<close>, after the default has been
  prevented. The promise is not awaited and a rejection is not handled.
\<close>

definition handleCopy ::
  "Clipboard option \<Rightarrow> jsstring \<Rightarrow> copy_world \<Rightarrow> (js_error + unit) \<times> copy_world" where
  "handleCopy clipboardAPI text w =
     (let w1 = w\<lparr>defaultPrevented := True\<rparr>
      in case clipboardAPI of
           None \<Rightarrow> (Inl TypeError, w1)
         | Some api \<Rightarrow> (Inr (), writeText api text w1))"

text \<open>
  The platform's copy action on the element of line 54: the \<open>onCopy\<close> handler runs on a
  fresh event, and the default action, which writes the selected part of the displayed
  string, takes place only when the handler has not prevented it.
\<close>

definition copy_action ::
  "Clipboard option \<Rightarrow> jsstring \<Rightarrow> jsstring \<Rightarrow> copy_world \<Rightarrow> (js_error + unit) \<times> copy_world" where
  "copy_action clipboardAPI text selection w =
     (let (r, w') = handleCopy clipboardAPI text (w\<lparr>defaultPrevented := False\<rparr>)
      in (r, if defaultPrevented w' then w' else w'\<lparr>clipboard := selection\<rparr>))"

section \<open>Properties of candidates and oracles\<close>

text \<open>The candidate of depth \<open>k\<close> measures strictly below the target width.\<close>

definition fits :: "(jsstring \<Rightarrow> real) \<Rightarrow> real \<Rightarrow> jsstring \<Rightarrow> int \<Rightarrow> bool" where
  "fits m W text k = (m (candidate text k) < W)"

text \<open>An oracle is monotone in the depth: a deeper candidate never measures narrower.\<close>

definition monotone_oracle :: "(jsstring \<Rightarrow> real) \<Rightarrow> jsstring \<Rightarrow> bool" where
  "monotone_oracle m text =
     (\<forall>j \<in> set [1..half text]. \<forall>k \<in> set [j..half text].
        m (candidate text j) \<le> m (candidate text k))"

text \<open>
  A string has the truncated form for a text: a prefix and a suffix of the text, of the
  same length \<open>k \<ge> 1\<close>, around one ellipsis.
\<close>

definition has_truncated_form :: "jsstring \<Rightarrow> jsstring \<Rightarrow> bool" where
  "has_truncated_form text r =
     (\<exists>k \<in> set [1..<Suc (length text)].
        r = take k text @ [ellipsis] @ drop (length text - k) text
        \<and> length (take k text) = k \<and> length (drop (length text - k) text) = k)"

text \<open>An oracle for examples: every code unit is one pixel wide.\<close>

definition unit_width :: "jsstring \<Rightarrow> real" where
  "unit_width s = real (length s)"

text \<open>A 2d context whose every font measures one pixel per code unit.\<close>

definition unit_context :: context2d where
  "unit_context f = unit_width"

text \<open>
  An oracle for examples that is not monotone: a string of three code units measures wider
  than any other.
\<close>

definition dented_width :: "jsstring \<Rightarrow> real" where
  "dented_width s = (if length s = 3 then 10 else 1)"

section \<open>Slices and candidates\<close>

lemma slice_prefix: "0 \<le> k \<Longrightarrow> slice s 0 k = take (nat k) s"
  by (auto simp: slice_def Let_def min_def)

lemma slice_from_zero: "slice_from s 0 = s"
  by (simp add: slice_from_def slice_def)

lemma slice_from_suffix:
  "1 \<le> k \<Longrightarrow> k \<le> int (length s) \<Longrightarrow> slice_from s (- k) = drop (length s - nat k) s"
  by (auto simp: slice_from_def slice_def Let_def max_def nat_diff_distrib)

lemma candidate_zero: "candidate t 0 = ellipsis # t"
  by (simp add: candidate_def slice_from_zero slice_def)

lemma candidate_shape:
  "1 \<le> k \<Longrightarrow> k \<le> half t \<Longrightarrow>
     candidate t k = take (nat k) t @ [ellipsis] @ drop (length t - nat k) t"
  by (simp add: candidate_def slice_prefix slice_from_suffix half_def)

section \<open>The loop, step by step\<close>

lemma search_loop_exit:
  "end_mark st < start st \<Longrightarrow> search_loop m W t st = st"
  by (simp add: search_loop.simps)

lemma search_loop_fit:
  "start st \<le> end_mark st \<Longrightarrow>
   m (candidate t ((start st + end_mark st) div 2)) < W \<Longrightarrow>
   search_loop m W t st =
     search_loop m W t
       (st\<lparr>truncatedText := candidate t ((start st + end_mark st) div 2),
           measuredWidth := Some (m (candidate t ((start st + end_mark st) div 2))),
           measured := measured st @ [candidate t ((start st + end_mark st) div 2)],
           start := (start st + end_mark st) div 2 + 1\<rparr>)"
  by (subst search_loop.simps) (simp add: Let_def)

lemma search_loop_unfit:
  "start st \<le> end_mark st \<Longrightarrow>
   \<not> m (candidate t ((start st + end_mark st) div 2)) < W \<Longrightarrow>
   search_loop m W t st =
     search_loop m W t
       (st\<lparr>truncatedText := candidate t ((start st + end_mark st) div 2),
           measuredWidth := Some (m (candidate t ((start st + end_mark st) div 2))),
           measured := measured st @ [candidate t ((start st + end_mark st) div 2)],
           end_mark := (start st + end_mark st) div 2 - 1\<rparr>)"
  by (subst search_loop.simps) (simp add: Let_def)

lemmas search_eval = search_def search_loop_exit search_loop_fit search_loop_unfit
  half_def candidate_def slice_def slice_from_def Let_def ellipsis_def fixed_span_def unit_width_def

lemma monotone_oracleD:
  "monotone_oracle m t \<Longrightarrow> 1 \<le> j \<Longrightarrow> j \<le> k \<Longrightarrow> k \<le> half t \<Longrightarrow>
     m (candidate t j) \<le> m (candidate t k)"
  by (simp add: monotone_oracle_def)

text \<open>What the loop establishes for any oracle.\<close>

lemma search_loop_bounds:
  assumes "1 \<le> start st" "start st \<le> end_mark st + 1" "end_mark st \<le> H"
    and "start st = 1 \<or> fits m W t (start st - 1)"
    and "end_mark st = H \<or> \<not> fits m W t (end_mark st + 1)"
  shows "start (search_loop m W t st) = end_mark (search_loop m W t st) + 1
       \<and> 0 \<le> end_mark (search_loop m W t st)
       \<and> end_mark (search_loop m W t st) \<le> H
       \<and> (end_mark (search_loop m W t st) = 0
            \<or> fits m W t (end_mark (search_loop m W t st)))
       \<and> (end_mark (search_loop m W t st) = H
            \<or> \<not> fits m W t (end_mark (search_loop m W t st) + 1))"
  using assms
proof (induction m W t st rule: search_loop.induct)
  case (1 m W t st)
  let ?mid = "(start st + end_mark st) div 2"
  show ?case
  proof (cases "start st \<le> end_mark st")
    case False
    with "1.prems" have "start st = end_mark st + 1" by simp
    moreover from False have "search_loop m W t st = st"
      by (simp add: search_loop_exit)
    ultimately show ?thesis using "1.prems" by auto
  next
    case True
    then have mid: "start st \<le> ?mid" "?mid \<le> end_mark st" by simp_all
    show ?thesis
    proof (cases "m (candidate t ?mid) < W")
      case fit: True
      have eq: "search_loop m W t st = search_loop m W t
         (st\<lparr>truncatedText := candidate t ?mid,
             measuredWidth := Some (m (candidate t ?mid)),
             measured := measured st @ [candidate t ?mid],
             start := ?mid + 1\<rparr>)"
        using True fit by (rule search_loop_fit)
      show ?thesis
        unfolding eq
        by (rule "1.IH"(1) [OF True refl refl refl refl fit, simplified])
           (use "1.prems" mid fit in \<open>simp_all add: fits_def\<close>)
    next
      case unfit: False
      have eq: "search_loop m W t st = search_loop m W t
         (st\<lparr>truncatedText := candidate t ?mid,
             measuredWidth := Some (m (candidate t ?mid)),
             measured := measured st @ [candidate t ?mid],
             end_mark := ?mid - 1\<rparr>)"
        using True unfit by (rule search_loop_unfit)
      show ?thesis
        unfolding eq
        by (rule "1.IH"(2) [OF True refl refl refl refl unfit, simplified])
           (use "1.prems" mid unfit in \<open>simp_all add: fits_def\<close>)
    qed
  qed
qed

lemma half_nonneg: "0 \<le> half t"
  by (simp add: half_def)

lemma search_bounds:
  "0 \<le> end_mark (search m W t)
   \<and> end_mark (search m W t) \<le> half t
   \<and> (end_mark (search m W t) = 0 \<or> fits m W t (end_mark (search m W t)))
   \<and> (end_mark (search m W t) = half t \<or> \<not> fits m W t (end_mark (search m W t) + 1))"
  using search_loop_bounds [of "\<lparr>start = 1, end_mark = half t, truncatedText = t,
        measuredWidth = None, measured = []\<rparr>" "half t" m W t] half_nonneg [of t]
  by (simp add: search_def)

lemma search_loop_measured:
  "s \<in> set (measured (search_loop m W t st)) \<Longrightarrow>
     s \<in> set (measured st) \<or>
     (\<exists>mid. start st \<le> mid \<and> mid \<le> end_mark st \<and> s = candidate t mid)"
proof (induction m W t st rule: search_loop.induct)
  case (1 m W t st)
  let ?mid = "(start st + end_mark st) div 2"
  show ?case
  proof (cases "start st \<le> end_mark st")
    case False
    with "1.prems" show ?thesis by (simp add: search_loop_exit)
  next
    case True
    then have mid: "start st \<le> ?mid" "?mid \<le> end_mark st" by simp_all
    show ?thesis
    proof (cases "m (candidate t ?mid) < W")
      case fit: True
      from "1.prems" have "s \<in> set (measured (search_loop m W t
         (st\<lparr>truncatedText := candidate t ?mid,
             measuredWidth := Some (m (candidate t ?mid)),
             measured := measured st @ [candidate t ?mid],
             start := ?mid + 1\<rparr>)))"
        by (simp add: search_loop_fit [where st=st and m=m and t=t and W=W, OF True fit])
      from "1.IH"(1) [OF True refl refl refl refl fit, simplified, OF this]
      show ?thesis using mid by (elim disjE exE) force+
    next
      case unfit: False
      from "1.prems" have "s \<in> set (measured (search_loop m W t
         (st\<lparr>truncatedText := candidate t ?mid,
             measuredWidth := Some (m (candidate t ?mid)),
             measured := measured st @ [candidate t ?mid],
             end_mark := ?mid - 1\<rparr>)))"
        by (simp add: search_loop_unfit [where st=st and m=m and t=t and W=W, OF True unfit])
      from "1.IH"(2) [OF True refl refl refl refl unfit, simplified, OF this]
      consider "s \<in> set (measured st)" | "s = candidate t ?mid"
        | k where "start st \<le> k" "k < ?mid" "s = candidate t k"
        by auto
      then show ?thesis
      proof cases
        case 3
        with mid have "start st \<le> k \<and> k \<le> end_mark st \<and> s = candidate t k" by simp
        then show ?thesis by blast
      qed (use mid in blast)+
    qed
  qed
qed

lemma search_measured:
  "s \<in> set (measured (search m W t)) \<Longrightarrow>
     \<exists>mid. 1 \<le> mid \<and> mid \<le> half t \<and> s = candidate t mid"
  using search_loop_measured [of s m W t "\<lparr>start = 1, end_mark = half t, truncatedText = t,
        measuredWidth = None, measured = []\<rparr>"]
  by (simp add: search_def)

lemma floorlog_halve: "0 < n \<Longrightarrow> floorlog 2 n = floorlog 2 (n div 2) + 1"
  by (subst compute_floorlog) simp

lemma search_loop_calls:
  "length (measured (search_loop m W t st))
     \<le> length (measured st) + floorlog 2 (nat (end_mark st - start st + 1))"
proof (induction m W t st rule: search_loop.induct)
  case (1 m W t st)
  let ?mid = "(start st + end_mark st) div 2"
  let ?n = "nat (end_mark st - start st + 1)"
  show ?case
  proof (cases "start st \<le> end_mark st")
    case False
    then show ?thesis by (simp add: search_loop_exit)
  next
    case True
    then have pos: "0 < ?n" by simp
    have step: "floorlog 2 ?n = floorlog 2 (?n div 2) + 1"
      using pos by (rule floorlog_halve)
    show ?thesis
    proof (cases "m (candidate t ?mid) < W")
      case fit: True
      have "nat (end_mark st - (?mid + 1) + 1) \<le> ?n div 2"
        using True by (simp add: nat_le_iff zdiv_int) 
      then have "floorlog 2 (nat (end_mark st - (?mid + 1) + 1)) \<le> floorlog 2 (?n div 2)"
        by (rule floorlog_mono)
      with "1.IH"(1) [OF True refl refl refl refl fit] step
      show ?thesis by (simp add: search_loop_fit [where st=st and m=m and t=t and W=W, OF True fit])
    next
      case unfit: False
      have "nat (?mid - 1 - start st + 1) \<le> ?n div 2"
        using True by (simp add: nat_le_iff zdiv_int)
      then have "floorlog 2 (nat (?mid - 1 - start st + 1)) \<le> floorlog 2 (?n div 2)"
        by (rule floorlog_mono)
      with "1.IH"(2) [OF True refl refl refl refl unfit] step
      show ?thesis by (simp add: search_loop_unfit [where st=st and m=m and t=t and W=W, OF True unfit])
    qed
  qed
qed

lemma search_calls: "length (measured (search m W t)) \<le> floorlog 2 (nat (half t))"
  using search_loop_calls [of m W t "\<lparr>start = 1, end_mark = half t, truncatedText = t,
        measuredWidth = None, measured = []\<rparr>"]
  by (simp add: search_def)

section \<open>Monotone oracles\<close>

lemma fits_above_end:
  assumes "monotone_oracle m t" "end_mark (search m W t) < k" "k \<le> half t"
  shows "\<not> fits m W t k"
proof -
  let ?e = "end_mark (search m W t)"
  from search_bounds [of m W t] assms(2,3)
  have e: "0 \<le> ?e" "\<not> fits m W t (?e + 1)" by auto
  from assms e(1) have "m (candidate t (?e + 1)) \<le> m (candidate t k)"
    by (intro monotone_oracleD) simp_all
  with e(2) show ?thesis by (simp add: fits_def)
qed

lemma fits_upto_end:
  assumes "monotone_oracle m t" "1 \<le> k" "k \<le> end_mark (search m W t)"
  shows "fits m W t k"
proof -
  let ?e = "end_mark (search m W t)"
  from search_bounds [of m W t] assms(2,3)
  have e: "?e \<le> half t" "fits m W t ?e" by auto
  from assms e(1) have "m (candidate t k) \<le> m (candidate t ?e)"
    by (intro monotone_oracleD) simp_all
  with e(2) show ?thesis by (simp add: fits_def)
qed

lemma fixed_span_truncates:
  "end_mark (search m W t) < half t \<Longrightarrow>
     fixed_span m W t = candidate t (end_mark (search m W t))"
  by (simp add: fixed_span_def Let_def)

lemma fixed_span_keeps:
  "half t \<le> end_mark (search m W t) \<Longrightarrow> fixed_span m W t = t"
  by (simp add: fixed_span_def Let_def)

lemma unit_width_monotone: "monotone_oracle unit_width t"
  by (auto simp: monotone_oracle_def unit_width_def candidate_shape half_def)

section \<open>The shape of the result\<close>

lemma fixed_span_end_zero:
  "1 \<le> half t \<Longrightarrow> end_mark (search m W t) = 0 \<Longrightarrow> fixed_span m W t = ellipsis # t"
  by (simp add: fixed_span_truncates candidate_zero)

lemma has_truncated_form_iff:
  "has_truncated_form t r \<longleftrightarrow>
     (\<exists>k\<ge>1. r = take k t @ [ellipsis] @ drop (length t - k) t
        \<and> length (take k t) = k \<and> length (drop (length t - k) t) = k)"
  by (auto simp: has_truncated_form_def)

lemma candidate_length:
  "1 \<le> k \<Longrightarrow> k \<le> half t \<Longrightarrow> length (candidate t k) = 2 * nat k + 1"
  by (simp add: candidate_shape) (simp add: half_def)

lemma candidate_middle:
  "1 \<le> k \<Longrightarrow> k \<le> half t \<Longrightarrow> candidate t k ! nat k = ellipsis"
proof -
  assume k: "1 \<le> k" "k \<le> half t"
  then have "length (take (nat k) t) = nat k" by (simp add: half_def)
  with k show ?thesis
    by (simp add: candidate_shape nth_append)
qed

section \<open>Copying with a clipboard that writes\<close>

lemma copy_action_fulfilled:
  "copy_action (Some Fulfils) t selection w =
     (Inr (), \<lparr>clipboard = t, defaultPrevented = True\<rparr>)"
  by (simp add: copy_action_def handleCopy_def writeText_def)

section \<open>Skipped effects\<close>

lemma skipped_effect: "skipped c ts \<Longrightarrow> useFixedSpan_effect c t ts h = h"
  by (simp add: skipped_def useFixedSpan_effect_def split: option.splits)

lemma skipped_renders:
  "list_all (\<lambda>(c, t, ts). skipped c ts) rs \<Longrightarrow> useFixedSpan_renders h rs = h"
  by (induction rs arbitrary: h) (auto simp: skipped_effect)

section \<open>The claims\<close>

text \<open>
  Claim C1, as stated: whenever the full text measures at most the target width, the result
  is the text unchanged. It fails: with one pixel per code unit and a target width of 4,
  the text \<open>abcd\<close> measures 4, yet the search only measures candidates, the depth 2
  candidate (the whole text and an ellipsis) measures 5, and the result is the depth 1
  truncation.
\<close>

theorem fixed_span_full_text_counterexample:
  "unit_width [0x61, 0x62, 0x63, 0x64] \<le> 4
   \<and> fixed_span unit_width 4 [0x61, 0x62, 0x63, 0x64] = [0x61, 0x2026, 0x64]
   \<and> fixed_span unit_width 4 [0x61, 0x62, 0x63, 0x64] \<noteq> [0x61, 0x62, 0x63, 0x64]"
  by (simp add: search_eval)

text \<open>
  Claim C1, amended: if every candidate of depth \<open>1 .. half\<close> measures strictly below the
  target width, the result is the text unchanged; for an oracle that is monotone in the
  depth and \<open>half \<ge> 1\<close>, it is enough that the depth \<open>half\<close> candidate does.
\<close>

theorem fixed_span_unchanged_if_candidates_fit:
  "((\<forall>k \<in> set [1..half t]. fits m W t k) \<longrightarrow> fixed_span m W t = t)
   \<and> (monotone_oracle m t \<and> 1 \<le> half t \<and> fits m W t (half t) \<longrightarrow> fixed_span m W t = t)"
proof -
  let ?e = "end_mark (search m W t)"
  note b = search_bounds [of m W t]
  have all_fit: "fixed_span m W t = t" if "\<forall>k \<in> set [1..half t]. fits m W t k"
  proof -
    have "?e = half t"
    proof (rule ccontr)
      assume "?e \<noteq> half t"
      with b have "1 \<le> ?e + 1" "?e + 1 \<le> half t" "\<not> fits m W t (?e + 1)" by auto
      with that show False by simp
    qed
    then show ?thesis by (simp add: fixed_span_keeps)
  qed
  have deepest_fits: "fixed_span m W t = t"
    if "monotone_oracle m t" "1 \<le> half t" "fits m W t (half t)"
  proof -
    have "half t \<le> ?e"
    proof (rule ccontr)
      assume "\<not> half t \<le> ?e"
      then have "\<not> fits m W t (half t)"
        using fits_above_end [OF that(1), of W "half t"] by simp
      with that(3) show False by simp
    qed
    then show ?thesis by (rule fixed_span_keeps)
  qed
  from all_fit deepest_fits show ?thesis by blast
qed

theorem fixed_span_unchanged_if_candidates_fit_witness:
  "fits unit_width 6 [0x61, 0x62, 0x63, 0x64] 1
   \<and> fits unit_width 6 [0x61, 0x62, 0x63, 0x64] 2
   \<and> monotone_oracle unit_width [0x61, 0x62, 0x63, 0x64]
   \<and> 1 \<le> half [0x61, 0x62, 0x63, 0x64]
   \<and> fits unit_width 6 [0x61, 0x62, 0x63, 0x64] (half [0x61, 0x62, 0x63, 0x64])
   \<and> fixed_span unit_width 6 [0x61, 0x62, 0x63, 0x64] = [0x61, 0x62, 0x63, 0x64]"
proof -
  let ?t = "[0x61, 0x62, 0x63, 0x64] :: jsstring"
  have depths: "[1..half ?t] = [1, 2]" by (simp add: half_def upto.simps)
  have f1: "fits unit_width 6 ?t 1" and f2: "fits unit_width 6 ?t 2"
    by (simp_all add: fits_def candidate_def slice_def slice_from_def unit_width_def)
  then have h: "\<forall>k \<in> set [1..half ?t]. fits unit_width 6 ?t k"
    unfolding depths by simp
  have mono: "monotone_oracle unit_width ?t" by (rule unit_width_monotone)
  have h1: "1 \<le> half ?t" by (simp add: half_def)
  have fh: "fits unit_width 6 ?t (half ?t)" using f2 by (simp add: half_def)
  from f1 f2 h mono h1 fh fixed_span_unchanged_if_candidates_fit [of ?t unit_width 6]
  show ?thesis by blast
qed

text \<open>
  Claim C2. For a text with \<open>half \<ge> 1\<close>, a target width and an oracle that is monotone in
  the depth, the final \<open>end\<close> of the binary search is the largest depth in \<open>1 .. half\<close>
  whose candidate measures strictly below the target width, or \<open>0\<close> when there is none.
  When \<open>1 \<le> end < half\<close>, the string handed to \<open>setTruncated\<close> measures strictly below
  the target width, and the candidate one deeper measures at least the target width.
\<close>

theorem search_end_is_largest_fit:
  assumes "monotone_oracle m t" and "1 \<le> half t"
  shows "end_mark (search m W t) =
           (if \<exists>k \<in> set [1..half t]. fits m W t k
            then Max {k \<in> set [1..half t]. fits m W t k} else 0)
       \<and> (1 \<le> end_mark (search m W t) \<and> end_mark (search m W t) < half t \<longrightarrow>
            m (fixed_span m W t) < W
            \<and> (W \<le> m (candidate t (end_mark (search m W t) + 1))
                 \<or> half t < end_mark (search m W t) + 1))"
proof -
  let ?e = "end_mark (search m W t)"
  let ?S = "{k \<in> set [1..half t]. fits m W t k}"
  note b = search_bounds [of m W t]
  have above: "\<not> fits m W t k" if "?e < k" "k \<le> half t" for k
    using assms(1) that by (rule fits_above_end)
  have largest: "?e = (if \<exists>k \<in> set [1..half t]. fits m W t k then Max ?S else 0)"
  proof (cases "\<exists>k \<in> set [1..half t]. fits m W t k")
    case True
    then obtain k where k: "1 \<le> k" "k \<le> half t" "fits m W t k" by auto
    with above [of k] have "k \<le> ?e" by force
    with k(1) b have "?e \<in> ?S" by auto
    moreover have "j \<le> ?e" if "j \<in> ?S" for j
      using that above [of j] by force
    moreover have "finite ?S"
      by (rule finite_subset [of _ "{1..half t}"]) auto
    ultimately have "Max ?S = ?e" by (intro Max_eqI)
    with True show ?thesis by simp
  next
    case False
    with b have "?e = 0" by auto
    with False show ?thesis by simp
  qed
  have conseq: "m (fixed_span m W t) < W \<and> (W \<le> m (candidate t (?e + 1)) \<or> half t < ?e + 1)"
    if "1 \<le> ?e" "?e < half t"
  proof -
    from that b have "fits m W t ?e" "\<not> fits m W t (?e + 1)" by auto
    with that(2) show ?thesis
      by (simp add: fixed_span_truncates fits_def)
  qed
  from largest conseq show ?thesis by blast
qed

theorem search_end_is_largest_fit_witness:
  "monotone_oracle unit_width [0x61, 0x62, 0x63, 0x64, 0x65, 0x66]
   \<and> 1 \<le> half [0x61, 0x62, 0x63, 0x64, 0x65, 0x66]
   \<and> end_mark (search unit_width 6 [0x61, 0x62, 0x63, 0x64, 0x65, 0x66]) = 2
   \<and> fixed_span unit_width 6 [0x61, 0x62, 0x63, 0x64, 0x65, 0x66]
        = [0x61, 0x62, 0x2026, 0x65, 0x66]
   \<and> unit_width (fixed_span unit_width 6 [0x61, 0x62, 0x63, 0x64, 0x65, 0x66]) < 6
   \<and> 6 \<le> unit_width (candidate [0x61, 0x62, 0x63, 0x64, 0x65, 0x66] 3)"
proof -
  let ?t = "[0x61, 0x62, 0x63, 0x64, 0x65, 0x66] :: jsstring"
  have mono: "monotone_oracle unit_width ?t"
    by (rule unit_width_monotone)
  have h: "1 \<le> half ?t" by (simp add: half_def)
  have e: "end_mark (search unit_width 6 ?t) = 2" by (simp add: search_eval)
  have r: "fixed_span unit_width 6 ?t = [0x61, 0x62, 0x2026, 0x65, 0x66]"
    by (simp add: search_eval)
  from search_end_is_largest_fit [OF mono h, of 6] e h
  have "unit_width (fixed_span unit_width 6 ?t) < 6
        \<and> 6 \<le> unit_width (candidate ?t 3)"
    by (simp add: half_def)
  with mono h e r show ?thesis by blast
qed

text \<open>
  Claim C3, as stated: whenever the result is not the text unchanged, it is a prefix and a
  suffix of the text of the same length \<open>k \<ge> 1\<close> around one ellipsis. It fails when the
  search ends with \<open>end = 0\<close>: for the text \<open>ab\<close> and a target width of 2 the result is
  not of that form for any \<open>k \<ge> 1\<close>.
\<close>

theorem truncated_form_counterexample:
  "fixed_span unit_width 2 [0x61, 0x62] \<noteq> [0x61, 0x62]
   \<and> \<not> has_truncated_form [0x61, 0x62] (fixed_span unit_width 2 [0x61, 0x62])"
  by (simp add: search_eval has_truncated_form_def upt_rec)

text \<open>
  Claim C3, amended: whenever the result is not the text unchanged and the search does not
  end with \<open>end = 0\<close>, the result is the prefix and the suffix of the text of length
  \<open>end \<ge> 1\<close> around one ellipsis.
\<close>

theorem truncated_form_when_end_positive:
  assumes "fixed_span m W t \<noteq> t" and "end_mark (search m W t) \<noteq> 0"
  shows "has_truncated_form t (fixed_span m W t)
       \<and> fixed_span m W t =
           take (nat (end_mark (search m W t))) t @ [ellipsis]
             @ drop (length t - nat (end_mark (search m W t))) t"
proof -
  let ?e = "end_mark (search m W t)"
  note b = search_bounds [of m W t]
  from assms(1) have lt: "?e < half t"
    using fixed_span_keeps [of t m W] by force
  with assms(2) b have e: "1 \<le> ?e" "?e \<le> half t" by auto
  from lt have r: "fixed_span m W t = candidate t ?e" by (rule fixed_span_truncates)
  also have "\<dots> = take (nat ?e) t @ [ellipsis] @ drop (length t - nat ?e) t"
    using e by (rule candidate_shape)
  finally have shape: "fixed_span m W t =
    take (nat ?e) t @ [ellipsis] @ drop (length t - nat ?e) t" .
  from e have "nat ?e \<in> set [1..<Suc (length t)]" "nat ?e \<le> length t"
    by (auto simp: half_def)
  with shape have "has_truncated_form t (fixed_span m W t)"
    unfolding has_truncated_form_def by (intro bexI [of _ "nat ?e"]) auto
  with shape show ?thesis by blast
qed

theorem truncated_form_when_end_positive_witness:
  "fixed_span unit_width 4 [0x61, 0x62, 0x63, 0x64] \<noteq> [0x61, 0x62, 0x63, 0x64]
   \<and> end_mark (search unit_width 4 [0x61, 0x62, 0x63, 0x64]) \<noteq> 0
   \<and> has_truncated_form [0x61, 0x62, 0x63, 0x64] (fixed_span unit_width 4 [0x61, 0x62, 0x63, 0x64])"
proof -
  let ?t = "[0x61, 0x62, 0x63, 0x64] :: jsstring"
  have h1: "fixed_span unit_width 4 ?t \<noteq> ?t" by (simp add: search_eval)
  have h2: "end_mark (search unit_width 4 ?t) \<noteq> 0" by (simp add: search_eval)
  from h1 h2 truncated_form_when_end_positive [OF h1 h2] show ?thesis by blast
qed

text \<open>
  Claim C4 says that a search ending with \<open>end = 0\<close> yields the ellipsis alone. The code
  evaluates \<open>text.slice(-end)\<close> with \<open>end = 0\<close>, which is \<open>text.slice(0)\<close>, the whole text:
  for the text \<open>ab\<close>, one pixel per code unit and a target width of 2, the search ends
  with \<open>end = 0\<close> and the result is the ellipsis followed by \<open>ab\<close>.
\<close>

theorem fixed_span_end_zero_prepends_ellipsis:
  "1 \<le> half [0x61, 0x62]
   \<and> end_mark (search unit_width 2 [0x61, 0x62]) = 0
   \<and> fixed_span unit_width 2 [0x61, 0x62] = [ellipsis, 0x61, 0x62]
   \<and> fixed_span unit_width 2 [0x61, 0x62] \<noteq> [ellipsis]"
  by (simp add: search_eval)

text \<open>
  Claim C5 says that a copy action always leaves the full text on the clipboard. Where
  \<open>navigator.clipboard\<close> is undefined the handler has prevented the default copy and then
  throws: for the text \<open>abcd\<close>, displayed truncated at depth 1 and selected, with \<open>x\<close> on the
  clipboard, the copy action ends in a \<open>TypeError\<close> and the clipboard still holds \<open>x\<close>.
\<close>

theorem copy_without_clipboard_api_copies_nothing:
  "fixed_span unit_width 4 [0x61, 0x62, 0x63, 0x64] = [0x61, 0x2026, 0x64]
   \<and> copy_action None [0x61, 0x62, 0x63, 0x64] (fixed_span unit_width 4 [0x61, 0x62, 0x63, 0x64])
         \<lparr>clipboard = [0x78], defaultPrevented = False\<rparr>
       = (Inl TypeError, \<lparr>clipboard = [0x78], defaultPrevented = True\<rparr>)
   \<and> [0x78] \<noteq> [0x61, 0x62, 0x63, 0x64 :: 16 word]"
  by (simp add: copy_action_def handleCopy_def search_eval)

text \<open>
  Claim C6, as stated: whenever the target width is zero or unknown, or there is no 2d
  context, the displayed string is the full text. It fails: the skipped effect leaves the
  state \<open>truncated\<close> as it is. After a render of \<open>abcdef\<close> at width 4, a render at width
  0 still displays the truncation of depth 1; and a component mounted with \<open>ab\<close> whose
  text becomes \<open>cd\<close> at width 0 still displays \<open>ab\<close>.
\<close>

theorem skipped_effect_shows_stale_text_counterexample:
  "skipped (Some unit_context) (Some \<lparr>width = 0, font = ''14px sans-serif''\<rparr>)
   \<and> truncated (useFixedSpan_renders (useFixedSpan_mount [0x61, 0x62, 0x63, 0x64, 0x65, 0x66])
        [(Some unit_context, [0x61, 0x62, 0x63, 0x64, 0x65, 0x66],
            Some \<lparr>width = 4, font = ''14px sans-serif''\<rparr>),
         (Some unit_context, [0x61, 0x62, 0x63, 0x64, 0x65, 0x66],
            Some \<lparr>width = 0, font = ''14px sans-serif''\<rparr>)])
       = [0x61, 0x2026, 0x66]
   \<and> [0x61, 0x2026, 0x66] \<noteq> [0x61, 0x62, 0x63, 0x64, 0x65, 0x66 :: 16 word]
   \<and> truncated (useFixedSpan_renders (useFixedSpan_mount [0x61, 0x62])
        [(Some unit_context, [0x63, 0x64], Some \<lparr>width = 0, font = ''14px sans-serif''\<rparr>)])
       = [0x61, 0x62]
   \<and> [0x61, 0x62] \<noteq> [0x63, 0x64 :: 16 word]"
  by (simp add: skipped_def useFixedSpan_mount_def useFixedSpan_effect_def unit_context_def
        search_eval)

text \<open>
  Claim C6, amended: when there is no target style, no 2d context or the width is zero,
  the effect measures nothing and leaves the displayed string as it was; as long as every
  effect since the mount was skipped this way, the displayed string is the text the hook
  was mounted with.
\<close>

theorem skipped_effect_keeps_display:
  "(skipped c ts \<longrightarrow> useFixedSpan_effect c t ts h = h)
   \<and> (list_all (\<lambda>(c, t', ts). skipped c ts) rs \<longrightarrow>
        useFixedSpan_renders (useFixedSpan_mount t) rs = useFixedSpan_mount t
        \<and> truncated (useFixedSpan_renders (useFixedSpan_mount t) rs) = t
        \<and> measure_log (useFixedSpan_renders (useFixedSpan_mount t) rs) = [])"
  by (simp add: skipped_effect skipped_renders) (simp add: useFixedSpan_mount_def)

theorem skipped_effect_keeps_display_witness:
  "skipped None (Some \<lparr>width = 4, font = ''14px sans-serif''\<rparr>)
   \<and> list_all (\<lambda>(c, t' :: jsstring, ts). skipped c ts)
        [(None, [0x61, 0x62, 0x63, 0x64], None),
         (Some unit_context, [0x61, 0x62, 0x63, 0x64], Some \<lparr>width = 0, font = ''14px sans-serif''\<rparr>)]
   \<and> useFixedSpan_effect None [0x61, 0x62, 0x63, 0x64]
        (Some \<lparr>width = 4, font = ''14px sans-serif''\<rparr>)
        \<lparr>truncated = [0x61, 0x2026, 0x64], measure_log = []\<rparr>
       = \<lparr>truncated = [0x61, 0x2026, 0x64], measure_log = []\<rparr>
   \<and> truncated (useFixedSpan_renders (useFixedSpan_mount [0x61, 0x62, 0x63, 0x64])
        [(None, [0x61, 0x62, 0x63, 0x64], None),
         (Some unit_context, [0x61, 0x62, 0x63, 0x64], Some \<lparr>width = 0, font = ''14px sans-serif''\<rparr>)])
       = [0x61, 0x62, 0x63, 0x64]"
proof -
  let ?t = "[0x61, 0x62, 0x63, 0x64] :: jsstring"
  let ?rs = "[(None, ?t, None),
         (Some unit_context, ?t, Some \<lparr>width = 0, font = ''14px sans-serif''\<rparr>)]"
  let ?h = "\<lparr>truncated = [0x61, 0x2026, 0x64], measure_log = []\<rparr>"
  have h1: "skipped None (Some \<lparr>width = 4, font = ''14px sans-serif''\<rparr>)"
    by (simp add: skipped_def)
  have h2: "list_all (\<lambda>(c, t' :: jsstring, ts). skipped c ts) ?rs"
    by (simp add: skipped_def)
  from h1 h2 skipped_effect_keeps_display
    [of None "Some \<lparr>width = 4, font = ''14px sans-serif''\<rparr>" ?t ?h ?rs]
  show ?thesis by blast
qed

text \<open>
  Claim C7. For a fixed text and a monotone oracle, the depth the search ends with does not
  decrease when the target width grows.
\<close>

theorem search_depth_monotone_in_width:
  assumes "monotone_oracle m t" and "W1 \<le> W2"
  shows "end_mark (search m W1 t) \<le> end_mark (search m W2 t)"
proof (cases "end_mark (search m W1 t) = 0")
  case True
  with search_bounds [of m W2 t] show ?thesis by simp
next
  case False
  let ?e1 = "end_mark (search m W1 t)"
  from False search_bounds [of m W1 t]
  have e1: "1 \<le> ?e1" "?e1 \<le> half t" "fits m W1 t ?e1" by auto
  from e1(3) assms(2) have "fits m W2 t ?e1" by (simp add: fits_def)
  with fits_above_end [OF assms(1), of W2 ?e1] e1(2) show ?thesis by force
qed

theorem search_depth_monotone_in_width_witness:
  "monotone_oracle unit_width [0x61, 0x62, 0x63, 0x64, 0x65, 0x66]
   \<and> (4::real) \<le> 6
   \<and> end_mark (search unit_width 4 [0x61, 0x62, 0x63, 0x64, 0x65, 0x66]) = 1
   \<and> end_mark (search unit_width 6 [0x61, 0x62, 0x63, 0x64, 0x65, 0x66]) = 2
   \<and> end_mark (search unit_width 4 [0x61, 0x62, 0x63, 0x64, 0x65, 0x66])
        \<le> end_mark (search unit_width 6 [0x61, 0x62, 0x63, 0x64, 0x65, 0x66])"
proof -
  let ?t = "[0x61, 0x62, 0x63, 0x64, 0x65, 0x66] :: jsstring"
  have mono: "monotone_oracle unit_width ?t"
    by (rule unit_width_monotone)
  have w: "(4::real) \<le> 6" by simp
  have e1: "end_mark (search unit_width 4 ?t) = 1" by (simp add: search_eval)
  have e2: "end_mark (search unit_width 6 ?t) = 2" by (simp add: search_eval)
  from mono w e1 e2 search_depth_monotone_in_width [OF mono w] show ?thesis by blast
qed

text \<open>
  Claim C8. For every text and every oracle, monotone or not, the loop terminates
  (\<open>search_loop\<close> is a total function, by its termination proof), and the number of
  strings it measures is at most \<open>floor (log2 (max half 1)) + 1\<close>.
\<close>

theorem search_calls_logarithmic:
  "int (length (measured (search m W t))) \<le> \<lfloor>log 2 (real_of_int (max (half t) 1))\<rfloor> + 1"
proof (cases "1 \<le> half t")
  case True
  then have "floorlog 2 (nat (half t)) = nat \<lfloor>log 2 (real (nat (half t)))\<rfloor> + 1"
    by (simp add: floorlog_def)
  moreover from True have "real (nat (half t)) = real_of_int (max (half t) 1)" by simp
  moreover from True have "0 \<le> \<lfloor>log 2 (real_of_int (max (half t) 1))\<rfloor>" by simp
  ultimately have "int (floorlog 2 (nat (half t))) = \<lfloor>log 2 (real_of_int (max (half t) 1))\<rfloor> + 1"
    by simp
  with search_calls [of m W t] show ?thesis by linarith
next
  case False
  then have "floorlog 2 (nat (half t)) = 0" by (simp add: floorlog_def)
  with search_calls [of m W t] have "length (measured (search m W t)) = 0" by simp
  moreover from False have "max (half t) 1 = 1" by simp
  ultimately show ?thesis by simp
qed

theorem search_calls_logarithmic_witness:
  "length (measured (search unit_width 6 [0x61, 0x62, 0x63, 0x64, 0x65, 0x66])) = 2
   \<and> int (length (measured (search unit_width 6 [0x61, 0x62, 0x63, 0x64, 0x65, 0x66])))
       \<le> \<lfloor>log 2 (real_of_int (max (half [0x61, 0x62, 0x63, 0x64, 0x65, 0x66]) 1))\<rfloor> + 1"
proof -
  let ?t = "[0x61, 0x62, 0x63, 0x64, 0x65, 0x66] :: jsstring"
  have n: "length (measured (search unit_width 6 ?t)) = 2" by (simp add: search_eval)
  from n search_calls_logarithmic [of unit_width 6 ?t] show ?thesis by blast
qed

text \<open>
  Claim C9. For every target width and oracle, a text of length at most 1 has
  \<open>half = 0\<close>, nothing is measured and the result is the text unchanged; in particular the
  result for the empty text is the empty text.
\<close>

theorem short_text_unchanged:
  "(length t \<le> 1 \<longrightarrow> half t = 0 \<and> fixed_span m W t = t \<and> measured (search m W t) = [])
   \<and> fixed_span m W [] = [] \<and> measured (search m W []) = []"
  by (auto simp: search_def fixed_span_def half_def search_loop_exit Let_def)

theorem short_text_unchanged_witness:
  "length [0x61 :: 16 word] \<le> 1 \<and> fixed_span unit_width 0.5 [0x61] = [0x61]
   \<and> measured (search unit_width 0.5 [0x61]) = []"
proof -
  have h: "length [0x61 :: 16 word] \<le> 1" by simp
  from h short_text_unchanged [of "[0x61]" unit_width "0.5"] show ?thesis by blast
qed

text \<open>
  Claim C10, as stated: only candidates of depth \<open>1 .. half\<close> are measured, never the full
  text, and \<open>end \<ge> half\<close> is decided by the depth \<open>half\<close> candidate alone. It fails twice. A
  text of odd length with the ellipsis in its middle is its own depth \<open>half\<close> candidate,
  and is measured. With an oracle that is not monotone, the depth 2 candidate of \<open>abcd\<close>
  measures below the target width and yet the search ends with \<open>end = 0\<close>.
\<close>

theorem measured_full_text_counterexample:
  "[0x61, ellipsis, 0x62] \<in> set (measured (search unit_width 10 [0x61, ellipsis, 0x62]))
   \<and> fits dented_width 5 [0x61, 0x62, 0x63, 0x64] (half [0x61, 0x62, 0x63, 0x64])
   \<and> \<not> half [0x61, 0x62, 0x63, 0x64] \<le> end_mark (search dented_width 5 [0x61, 0x62, 0x63, 0x64])"
  by (simp add: search_eval fits_def dented_width_def)

text \<open>
  Claim C10, amended: every measured string is a candidate of some depth \<open>k\<close> in
  \<open>1 .. half\<close>, of length \<open>2 k + 1\<close> with the ellipsis at index \<open>k\<close>; the full text is
  measured only when it has odd length and the ellipsis in its middle; when \<open>half \<ge> 1\<close>,
  \<open>end \<ge> half\<close> implies that the depth \<open>half\<close> candidate measures strictly below the
  target width, and for a monotone oracle the converse holds.
\<close>

theorem measured_only_candidates:
  "(\<forall>s \<in> set (measured (search m W t)).
      \<exists>k \<in> set [1..half t]. s = candidate t k \<and> length s = 2 * nat k + 1 \<and> s ! nat k = ellipsis)
   \<and> (t \<in> set (measured (search m W t)) \<longrightarrow>
        odd (length t) \<and> t ! (length t div 2) = ellipsis)
   \<and> (1 \<le> half t \<and> half t \<le> end_mark (search m W t) \<longrightarrow> fits m W t (half t))
   \<and> (1 \<le> half t \<and> monotone_oracle m t \<and> fits m W t (half t) \<longrightarrow>
        half t \<le> end_mark (search m W t))"
proof -
  let ?e = "end_mark (search m W t)"
  note b = search_bounds [of m W t]
  have cand: "\<exists>k \<in> set [1..half t].
      s = candidate t k \<and> length s = 2 * nat k + 1 \<and> s ! nat k = ellipsis"
    if "s \<in> set (measured (search m W t))" for s
  proof -
    from search_measured [OF that] obtain k
      where k: "1 \<le> k" "k \<le> half t" "s = candidate t k" by blast
    with candidate_length [of k t] candidate_middle [of k t] show ?thesis by auto
  qed
  have full: "odd (length t) \<and> t ! (length t div 2) = ellipsis"
    if "t \<in> set (measured (search m W t))"
  proof -
    from cand [OF that] obtain k where k: "1 \<le> k" "length t = 2 * nat k + 1"
      "t ! nat k = ellipsis" by auto
    from k(2) have "length t div 2 = nat k" by simp
    with k show ?thesis by simp
  qed
  have only_if: "fits m W t (half t)" if "1 \<le> half t" "half t \<le> ?e"
    using that b by auto
  have "if": "half t \<le> ?e" if "1 \<le> half t" "monotone_oracle m t" "fits m W t (half t)"
  proof (rule ccontr)
    assume "\<not> half t \<le> ?e"
    then have "\<not> fits m W t (half t)"
      using fits_above_end [OF that(2), of W "half t"] by simp
    with that(3) show False by simp
  qed
  from cand full only_if "if" show ?thesis by blast
qed

theorem measured_only_candidates_witness:
  "measured (search unit_width 10 [0x61, ellipsis, 0x62]) = [[0x61, ellipsis, 0x62]]
   \<and> 1 \<le> half [0x61, ellipsis, 0x62]
   \<and> monotone_oracle unit_width [0x61, ellipsis, 0x62]
   \<and> half [0x61, ellipsis, 0x62] \<le> end_mark (search unit_width 10 [0x61, ellipsis, 0x62])
   \<and> fits unit_width 10 [0x61, ellipsis, 0x62] (half [0x61, ellipsis, 0x62])
   \<and> odd (length [0x61, ellipsis, 0x62])
   \<and> [0x61, ellipsis, 0x62] ! (length [0x61, ellipsis, 0x62] div 2) = ellipsis"
proof -
  let ?t = "[0x61, ellipsis, 0x62] :: jsstring"
  have ms: "measured (search unit_width 10 ?t) = [?t]" by (simp add: search_eval)
  then have h1: "?t \<in> set (measured (search unit_width 10 ?t))" by simp
  have h2: "1 \<le> half ?t" by (simp add: half_def)
  have h3: "monotone_oracle unit_width ?t" by (rule unit_width_monotone)
  have h4: "half ?t \<le> end_mark (search unit_width 10 ?t)" by (simp add: search_eval)
  from ms h1 h2 h3 h4 measured_only_candidates [of unit_width 10 ?t]
  show ?thesis by blast
qed

end
